theory Spec2Isabelle
  imports Complex_Main "HOL-Library.Sublist" "HOL-Library.AList"
begin

section \<open>Keyword intent recognition: the \<open>execute\<close> routine of the IntentRecognition node\<close>

text \<open>
  The development embeds the keyword-based \<open>execute\<close> method of
  \<^verbatim>\<open>src/nodes/IntentRecognition/IntentRecognition.node.ts\<close> (the second class of that
  file, the one reading \<^verbatim>\<open>intentsList.intentOptions\<close>), together with the platform
  functions it calls.

  Conventions of the embedding.
  \<^item> A JavaScript string is a \<^typ>\<open>string\<close>; a \<^typ>\<open>char\<close> stands for the UTF-16 code
    unit of the same number, so the strings covered are those of code units below 256
    (Latin-1). \<open>toLowerCase\<close> and \<open>trim\<close> are written out for that range.
  \<^item> A JSON value is a \<open>jsvalue\<close>. Numbers are integers (rendered in decimal, as
    JavaScript does below \<open>10^21\<close>); \<open>NaN\<close>, fractions and \<open>undefined\<close> do not occur
    in input records.
  \<^item> An object is an association list in insertion order. Writing a property is
    \<^const>\<open>AList.update\<close> (an existing key keeps its place), reading one is
    \<^const>\<open>map_of\<close>. Members inherited from \<open>Object.prototype\<close> are not modelled:
    field and parameter names are taken to differ from them.
  \<^item> \<open>keywordMatches.length / keywords.length\<close> and the comparison with the threshold
    are exact over \<^typ>\<open>rat\<close>.
  \<^item> \<open>new Date().toISOString()\<close> is the context's \<open>now\<close>, indexed by the item
    being processed.
\<close>

subsection \<open>Strings\<close>

definition toLowerCase_char :: "char \<Rightarrow> char" where
  "toLowerCase_char c =
     (let n = (of_char c :: nat)
      in if (65 \<le> n \<and> n \<le> 90) \<or> (192 \<le> n \<and> n \<le> 222 \<and> n \<noteq> 215)
         then char_of (n + 32) else c)"

definition toLowerCase :: "string \<Rightarrow> string" where
  "toLowerCase s = map toLowerCase_char s"

definition isWhiteSpace :: "char \<Rightarrow> bool" where
  \<comment> \<open>TAB, LF, VT, FF, CR, SP, NBSP: the white space and line terminators below 256\<close>
  "isWhiteSpace c = ((of_char c :: nat) \<in> {9, 10, 11, 12, 13, 32, 160})"

definition trim :: "string \<Rightarrow> string" where
  "trim s = rev (dropWhile isWhiteSpace (rev (dropWhile isWhiteSpace s)))"

fun split_comma :: "string \<Rightarrow> string list" where
  \<comment> \<open>\<open>s.split(',')\<close>\<close>
  "split_comma [] = [[]]"
| "split_comma (c # cs) =
     (if c = CHR '','' then [] # split_comma cs
      else (case split_comma cs of
              [] \<Rightarrow> [[c]]
            | t # ts \<Rightarrow> (c # t) # ts))"

fun str_includes :: "string \<Rightarrow> string \<Rightarrow> bool" where
  \<comment> \<open>\<open>text.includes(k)\<close>\<close>
  "str_includes [] k = (k = [])"
| "str_includes (c # cs) k = (prefix k (c # cs) \<or> str_includes cs k)"

fun join :: "string \<Rightarrow> string list \<Rightarrow> string" where
  "join sep [] = []"
| "join sep [s] = s"
| "join sep (s # t # ts) = s @ sep @ join sep (t # ts)"

subsection \<open>JSON values, \<open>String(v)\<close> and \<open>JSON.stringify(v)\<close>\<close>

datatype jsvalue = JNull | JBool bool | JNum int | JStr string
  | JArr "jsvalue list" | JObj "(string \<times> jsvalue) list"

fun truthy :: "jsvalue option \<Rightarrow> bool" where
  \<comment> \<open>\<open>None\<close> is \<open>undefined\<close>, the value of an absent property\<close>
  "truthy None = False"
| "truthy (Some JNull) = False"
| "truthy (Some (JBool b)) = b"
| "truthy (Some (JNum n)) = (n \<noteq> 0)"
| "truthy (Some (JStr s)) = (s \<noteq> [])"
| "truthy (Some (JArr vs)) = True"
| "truthy (Some (JObj kvs)) = True"

fun digits :: "nat \<Rightarrow> string" where
  "digits n = (if n < 10 then [char_of (48 + n)]
               else digits (n div 10) @ [char_of (48 + n mod 10)])"

declare digits.simps [simp del]

definition Number_toString :: "int \<Rightarrow> string" where
  "Number_toString n = (if n < 0 then CHR ''-'' # digits (nat (- n)) else digits (nat n))"

definition hexDigit :: "nat \<Rightarrow> char" where
  "hexDigit n = (if n < 10 then char_of (48 + n) else char_of (87 + n))"

definition quoteChar :: "char \<Rightarrow> string" where
  "quoteChar c =
     (let n = (of_char c :: nat)
      in if n = 8 then [CHR 0x5C, CHR ''b'']
         else if n = 9 then [CHR 0x5C, CHR ''t'']
         else if n = 10 then [CHR 0x5C, CHR ''n'']
         else if n = 12 then [CHR 0x5C, CHR ''f'']
         else if n = 13 then [CHR 0x5C, CHR ''r'']
         else if n = 34 then [CHR 0x5C, CHR 0x22]
         else if n = 92 then [CHR 0x5C, CHR 0x5C]
         else if n < 32 then [CHR 0x5C, CHR ''u'', CHR ''0'', CHR ''0'',
                              hexDigit (n div 16), hexDigit (n mod 16)]
         else [c])"

definition quoteJSON :: "string \<Rightarrow> string" where
  "quoteJSON s = CHR 0x22 # concat (map quoteChar s) @ [CHR 0x22]"

fun JSON_stringify :: "jsvalue \<Rightarrow> string" where
  "JSON_stringify JNull = ''null''"
| "JSON_stringify (JBool b) = (if b then ''true'' else ''false'')"
| "JSON_stringify (JNum n) = Number_toString n"
| "JSON_stringify (JStr s) = quoteJSON s"
| "JSON_stringify (JArr vs) = ''['' @ join '','' (map JSON_stringify vs) @ '']''"
| "JSON_stringify (JObj kvs) =
     ''{'' @ join '','' (map (\<lambda>(k, v). quoteJSON k @ '':'' @ JSON_stringify v) kvs) @ ''}''"

fun String_of :: "jsvalue \<Rightarrow> string" where
  \<comment> \<open>\<open>String(v)\<close>; an array joins its elements, \<open>null\<close> elements as the empty string\<close>
  "String_of JNull = ''null''"
| "String_of (JBool b) = (if b then ''true'' else ''false'')"
| "String_of (JNum n) = Number_toString n"
| "String_of (JStr s) = s"
| "String_of (JArr vs) = join '','' (map (\<lambda>v. if v = JNull then [] else String_of v) vs)"
| "String_of (JObj kvs) = ''[object Object]''"

subsection \<open>Node parameters, items and errors\<close>

record parameterOption =
  key :: string
  type :: string
  required :: bool
  defaultValue :: string

record intentOption =
  key :: string
  description :: string
  intentKeywords :: "string option"  \<comment> \<open>the field \<open>keywords\<close>\<close>
  outputKey :: "string option"
  parameters :: "parameterOption list option"
    \<comment> \<open>\<open>intent.parameters?.parameterOptions\<close>; \<open>None\<close> when either is missing\<close>

record nodeOptions =
  caseSensitive :: "bool option"
  confidenceThreshold :: "rat option"
  inputField :: "string option"

type_synonym binaryData = "(string \<times> string) list"

record 'v nodeExecutionData =
  json :: "(string \<times> 'v) list"
  binary :: "binaryData option"
  pairedItem :: "nat option"

text \<open>
  The values of an emitted record: the fields copied from the input, and the fields that
  \<open>execute\<close> writes. \<open>IntentMetadata c t s\<close> is
  \<open>{confidence: c, processingTime: t, inputText: s}\<close>; \<open>ErrorMetadata c t e\<close> is
  \<open>{confidence: c, processingTime: t, error: e}\<close>.
\<close>

datatype enriched =
    Original jsvalue
  | RecognizedIntent "string option"
  | ExtractedParameters "(string \<times> jsvalue) list"
  | IntentMetadata rat string string
  | ErrorMessage string
  | ErrorMetadata rat string bool

datatype error = NodeOperationError string nat | TypeError string

fun message :: "error \<Rightarrow> string" where
  "message (NodeOperationError m i) = m"
| "message (TypeError m) = m"

record "context" =
  inputData :: "jsvalue nodeExecutionData list"
  intentOptions :: "intentOption list"
  fallbackBehavior :: string
  options :: nodeOptions
  continueOnFail :: bool
  now :: "nat \<Rightarrow> string"

type_synonym returnData = "enriched nodeExecutionData list list"

subsection \<open>The body of \<open>execute\<close>\<close>

definition extractText :: "string \<Rightarrow> (string \<times> jsvalue) list \<Rightarrow> string" where
  "extractText field js =
     (if truthy (map_of js field) then String_of (the (map_of js field))
      else JSON_stringify (JObj js))"

definition textToAnalyze :: "bool \<Rightarrow> string \<Rightarrow> (string \<times> jsvalue) list \<Rightarrow> string" where
  "textToAnalyze cs field js =
     (if \<not> cs then toLowerCase (extractText field js) else extractText field js)"

definition keywordsOf :: "string \<Rightarrow> string list" where
  \<comment> \<open>\<open>intent.keywords.split(',').map(k => k.trim())\<close>\<close>
  "keywordsOf s = map trim (split_comma s)"

definition keywordMatches :: "bool \<Rightarrow> string \<Rightarrow> string list \<Rightarrow> string list" where
  "keywordMatches cs text kws =
     filter (\<lambda>keyword. str_includes text (if cs then keyword else toLowerCase keyword)) kws"

fun extractParameters ::
  "(string \<times> jsvalue) list \<Rightarrow> parameterOption list \<Rightarrow> (string \<times> jsvalue) list
     \<Rightarrow> (string \<times> jsvalue) list" where
  "extractParameters js [] acc = acc"
| "extractParameters js (param # rest) acc =
     (if parameterOption.key param \<in> fst ` set js
      then extractParameters js rest
             (AList.update (parameterOption.key param) (the (map_of js (parameterOption.key param))) acc)
      else if defaultValue param \<noteq> []
      then extractParameters js rest
             (AList.update (parameterOption.key param) (JStr (defaultValue param)) acc)
      else extractParameters js rest acc)"

record recognition =
  recognizedIntentIndex :: int
  recognizedIntentKey :: "string option"
  extractedParameters :: "(string \<times> jsvalue) list"
  confidence :: rat

definition initialRecognition :: recognition where
  "initialRecognition =
     \<lparr>recognizedIntentIndex = - 1, recognizedIntentKey = None,
      extractedParameters = [], confidence = 0\<rparr>"

fun intentLoop ::
  "bool \<Rightarrow> rat \<Rightarrow> string \<Rightarrow> (string \<times> jsvalue) list \<Rightarrow> nat \<Rightarrow> intentOption list
     \<Rightarrow> recognition \<Rightarrow> recognition" where
  "intentLoop cs th text js intentIndex [] st = st"
| "intentLoop cs th text js intentIndex (intent # rest) st =
     (case intentKeywords intent of
        None \<Rightarrow> intentLoop cs th text js (Suc intentIndex) rest st
      | Some kwstr \<Rightarrow>
          if kwstr = [] then intentLoop cs th text js (Suc intentIndex) rest st
          else
            let kws = keywordsOf kwstr;
                matches = keywordMatches cs text kws
            in if length matches > 0
               then
                 let st' = st\<lparr>confidence := of_nat (length matches) / of_nat (length kws)\<rparr>
                 in if confidence st' \<ge> th
                    then st'\<lparr>recognizedIntentIndex := int intentIndex,
                             recognizedIntentKey := Some (intentOption.key intent),
                             extractedParameters :=
                               (case parameters intent of
                                  None \<Rightarrow> extractedParameters st'
                                | Some ps \<Rightarrow> extractParameters js ps (extractedParameters st'))\<rparr>
                    else intentLoop cs th text js (Suc intentIndex) rest st'
               else intentLoop cs th text js (Suc intentIndex) rest st)"

definition optCaseSensitive :: "context \<Rightarrow> bool" where
  "optCaseSensitive this = (case caseSensitive (options this) of None \<Rightarrow> False | Some b \<Rightarrow> b)"

definition optConfidenceThreshold :: "context \<Rightarrow> rat" where
  "optConfidenceThreshold this =
     (case confidenceThreshold (options this) of None \<Rightarrow> 1 / 2 | Some t \<Rightarrow> t)"

definition optInputField :: "context \<Rightarrow> string" where
  "optInputField this = (case inputField (options this) of None \<Rightarrow> ''message'' | Some f \<Rightarrow> f)"

definition hasFallback :: "context \<Rightarrow> bool" where
  "hasFallback this = (fallbackBehavior this = ''route_to_fallback'')"

definition totalOutputs :: "context \<Rightarrow> nat" where
  "totalOutputs this = length (intentOptions this) + (if hasFallback this then 1 else 0)"

definition itemText :: "context \<Rightarrow> jsvalue nodeExecutionData \<Rightarrow> string" where
  "itemText this item = textToAnalyze (optCaseSensitive this) (optInputField this) (json item)"

definition recognize :: "context \<Rightarrow> jsvalue nodeExecutionData \<Rightarrow> recognition" where
  "recognize this item =
     intentLoop (optCaseSensitive this) (optConfidenceThreshold this) (itemText this item)
       (json item) 0 (intentOptions this) initialRecognition"

definition processedItem ::
  "context \<Rightarrow> nat \<Rightarrow> jsvalue nodeExecutionData \<Rightarrow> enriched nodeExecutionData" where
  "processedItem this itemIndex item =
     (let r = recognize this item
      in \<lparr>json =
            AList.update ''intentMetadata''
              (IntentMetadata (confidence r) (now this itemIndex) (take 200 (itemText this item)))
              (AList.update ''extractedParameters'' (ExtractedParameters (extractedParameters r))
                 (AList.update ''recognizedIntent'' (RecognizedIntent (recognizedIntentKey r))
                    (map (\<lambda>(k, v). (k, Original v)) (json item)))),
          binary = binary item,
          pairedItem = Some itemIndex\<rparr>)"

definition errorItem ::
  "context \<Rightarrow> nat \<Rightarrow> jsvalue nodeExecutionData \<Rightarrow> error \<Rightarrow> enriched nodeExecutionData" where
  "errorItem this itemIndex item err =
     \<lparr>json =
        AList.update ''intentMetadata'' (ErrorMetadata 0 (now this itemIndex) True)
          (AList.update ''extractedParameters'' (ExtractedParameters [])
             (AList.update ''recognizedIntent'' (RecognizedIntent None)
                (AList.update ''error'' (ErrorMessage (message err))
                   (map (\<lambda>(k, v). (k, Original v)) (json item))))),
      binary = None,
      pairedItem = Some itemIndex\<rparr>"

definition push :: "returnData \<Rightarrow> nat \<Rightarrow> enriched nodeExecutionData \<Rightarrow> error + returnData" where
  \<comment> \<open>\<open>returnData[i].push(x)\<close>: \<open>returnData[i]\<close> is \<open>undefined\<close> out of range\<close>
  "push returnData i x =
     (if i < length returnData then Inr (returnData[i := returnData ! i @ [x]])
      else Inl (TypeError ''Cannot read properties of undefined''))"

definition tryBody ::
  "context \<Rightarrow> nat \<Rightarrow> jsvalue nodeExecutionData \<Rightarrow> returnData \<Rightarrow> error + returnData" where
  "tryBody this itemIndex item returnData =
     (let r = recognize this item
      in if recognizedIntentIndex r \<ge> 0
         then push returnData (nat (recognizedIntentIndex r)) (processedItem this itemIndex item)
         else if fallbackBehavior this = ''route_to_fallback''
         then push returnData (length returnData - 1) (processedItem this itemIndex item)
         else if fallbackBehavior this = ''discard''
         then Inr returnData
         else if fallbackBehavior this = ''error''
         then Inl (NodeOperationError
                     (''No intent recognized for input: '' @ take 100 (itemText this item) @ ''...'')
                     itemIndex)
         else if hasFallback this
         then push returnData (length returnData - 1) (processedItem this itemIndex item)
         else Inr returnData)"

definition catchBlock ::
  "context \<Rightarrow> nat \<Rightarrow> jsvalue nodeExecutionData \<Rightarrow> returnData \<Rightarrow> error \<Rightarrow> error + returnData" where
  "catchBlock this itemIndex item returnData err =
     (if continueOnFail this
      then push returnData (if hasFallback this then length returnData - 1 else 0)
             (errorItem this itemIndex item err)
      else (case err of
              NodeOperationError m i \<Rightarrow> Inl err
            | TypeError m \<Rightarrow> Inl (NodeOperationError m itemIndex)))"

definition iteration ::
  "context \<Rightarrow> nat \<Rightarrow> jsvalue nodeExecutionData \<Rightarrow> returnData \<Rightarrow> error + returnData" where
  "iteration this itemIndex item returnData =
     (case tryBody this itemIndex item returnData of
        Inr rd \<Rightarrow> Inr rd
      | Inl err \<Rightarrow> catchBlock this itemIndex item returnData err)"

fun itemLoop ::
  "context \<Rightarrow> nat \<Rightarrow> jsvalue nodeExecutionData list \<Rightarrow> returnData \<Rightarrow> error + returnData" where
  "itemLoop this itemIndex [] returnData = Inr returnData"
| "itemLoop this itemIndex (item # rest) returnData =
     (case iteration this itemIndex item returnData of
        Inl err \<Rightarrow> Inl err
      | Inr rd \<Rightarrow> itemLoop this (Suc itemIndex) rest rd)"

definition execute :: "context \<Rightarrow> error + returnData" where
  "execute this =
     (case itemLoop this 0 (inputData this) (replicate (totalOutputs this) []) of
        Inl err \<Rightarrow> Inl err
      | Inr rd \<Rightarrow> Inr (if length rd \<noteq> 0 then rd else [[]]))"

subsection \<open>The output descriptors: \<open>configuredOutputs\<close>\<close>

record nodeOutput =
  type :: string
  displayName :: string

definition configuredOutputs :: "intentOption list \<Rightarrow> string \<Rightarrow> nodeOutput list" where
  \<comment> \<open>the arguments are \<open>parameters.intentsList?.intentOptions ?? []\<close> and
      \<open>parameters.fallbackBehavior\<close>\<close>
  "configuredOutputs intentsList fb =
     (let outputs =
            map (\<lambda>(index, intent).
                   \<lparr>nodeOutput.type = ''main'',
                    displayName =
                      (if intentOption.key intent \<noteq> [] then intentOption.key intent
                       else ''Intent '' @ Number_toString (int index + 1))\<rparr>)
              (enumerate 0 intentsList);
          outputs =
            (if fb = ''route_to_fallback''
             then outputs @ [\<lparr>nodeOutput.type = ''main'', displayName = ''Fallback''\<rparr>]
             else outputs)
      in if length outputs > 0 then outputs
         else [\<lparr>nodeOutput.type = ''main'', displayName = ''Main''\<rparr>])"

subsection \<open>Notions used in the statements\<close>

text \<open>
  The keyword tokens the loop body computes for one intent (none when the keyword string
  is empty or absent, since the body is skipped), the tokens found in the text, and the
  quotient the body assigns to \<open>confidence\<close>. An intent is \<open>selectable\<close> when the body
  reaches its \<open>break\<close>: at least one token found, and the quotient at or above the
  threshold.
\<close>

definition intentTokens :: "intentOption \<Rightarrow> string list" where
  "intentTokens intent =
     (case intentKeywords intent of None \<Rightarrow> [] | Some s \<Rightarrow> if s = [] then [] else keywordsOf s)"

definition intentMatches :: "bool \<Rightarrow> string \<Rightarrow> intentOption \<Rightarrow> string list" where
  "intentMatches cs text intent = keywordMatches cs text (intentTokens intent)"

definition intentConfidence :: "bool \<Rightarrow> string \<Rightarrow> intentOption \<Rightarrow> rat" where
  "intentConfidence cs text intent =
     of_nat (length (intentMatches cs text intent)) / of_nat (length (intentTokens intent))"

definition selectable :: "bool \<Rightarrow> rat \<Rightarrow> string \<Rightarrow> intentOption \<Rightarrow> bool" where
  "selectable cs th text intent =
     (intentMatches cs text intent \<noteq> [] \<and> intentConfidence cs text intent \<ge> th)"

definition selected ::
  "(string \<times> jsvalue) list \<Rightarrow> nat \<Rightarrow> intentOption \<Rightarrow> rat \<Rightarrow> recognition \<Rightarrow> recognition" where
  "selected js n intent c st =
     \<lparr>recognizedIntentIndex = int n,
      recognizedIntentKey = Some (intentOption.key intent),
      extractedParameters =
        (case parameters intent of
           None \<Rightarrow> extractedParameters st
         | Some ps \<Rightarrow> extractParameters js ps (extractedParameters st)),
      confidence = c\<rparr>"

text \<open>
  The channel an item is pushed to when no error is thrown, and the content of channel
  \<open>c\<close> after the items \<open>items\<close>, numbered from \<open>i\<close>, have been processed.
\<close>

definition outputIndexOf :: "context \<Rightarrow> jsvalue nodeExecutionData \<Rightarrow> nat option" where
  "outputIndexOf this item =
     (if recognizedIntentIndex (recognize this item) \<ge> 0
      then Some (nat (recognizedIntentIndex (recognize this item)))
      else if hasFallback this then Some (length (intentOptions this))
      else None)"

definition channel ::
  "context \<Rightarrow> nat \<Rightarrow> nat \<Rightarrow> jsvalue nodeExecutionData list \<Rightarrow> enriched nodeExecutionData list" where
  "channel this c i items =
     map (\<lambda>(j, item). processedItem this j item)
       (filter (\<lambda>(j, item). outputIndexOf this item = Some c) (enumerate i items))"

text \<open>
  The specification's per-intent confidence, following its words: the keywords of an intent
  are "the comma-split, trimmed, non-empty tokens" of its keyword string, an intent without
  keywords "contributes confidence 0", and the confidence is the count of keywords found
  in the (normalised) text over the total keyword count.
\<close>

definition spec_keywordTokens :: "string option \<Rightarrow> string list" where
  "spec_keywordTokens kw =
     (case kw of None \<Rightarrow> [] | Some s \<Rightarrow> filter (\<lambda>t. t \<noteq> []) (map trim (split_comma s)))"

definition spec_confidence :: "bool \<Rightarrow> string \<Rightarrow> string option \<Rightarrow> rat" where
  "spec_confidence cs text kw =
     (let ts = spec_keywordTokens kw
      in if ts = [] then 0
         else of_nat (length (filter (\<lambda>k. str_includes text (if cs then k else toLowerCase k)) ts))
                / of_nat (length ts))"

text \<open>Concrete configurations and records for the examples.\<close>

definition intentWith :: "string \<Rightarrow> string \<Rightarrow> parameterOption list \<Rightarrow> intentOption" where
  "intentWith k kw ps =
     \<lparr>intentOption.key = k, description = [], intentKeywords = Some kw, outputKey = None,
      parameters = Some ps\<rparr>"

definition recordOf :: "(string \<times> jsvalue) list \<Rightarrow> jsvalue nodeExecutionData" where
  "recordOf js = \<lparr>json = js, binary = None, pairedItem = None\<rparr>"

definition messageItem :: "string \<Rightarrow> jsvalue nodeExecutionData" where
  "messageItem s = recordOf [(''message'', JStr s)]"

definition contextWith ::
  "jsvalue nodeExecutionData list \<Rightarrow> intentOption list \<Rightarrow> string \<Rightarrow> rat option \<Rightarrow> bool
     \<Rightarrow> context" where
  "contextWith items intents fb th cof =
     \<lparr>inputData = items, intentOptions = intents, fallbackBehavior = fb,
      options = \<lparr>caseSensitive = None, confidenceThreshold = th, inputField = None\<rparr>,
      continueOnFail = cof, now = (\<lambda>i. ''2024-01-01T00:00:00.000Z'')\<rparr>"

definition exThresholdZero :: "context" where
  "exThresholdZero =
     contextWith [] [intentWith ''billing'' ''refund,invoice'' [], intentWith ''greeting'' ''hello'' []]
       ''route_to_fallback'' (Some 0) False"

definition exLaterHigher :: "context" where
  "exLaterHigher =
     contextWith [] [intentWith ''smalltalk'' ''hello,hi,hey'' [], intentWith ''greeting'' ''hello'' []]
       ''route_to_fallback'' (Some (3 / 10)) False"

definition exTrailingComma :: "context" where
  "exTrailingComma =
     contextWith [] [intentWith ''greeting'' ''hello,'' []] ''route_to_fallback'' None False"

definition exFallthrough :: "context" where
  "exFallthrough =
     contextWith [] [intentWith ''booking'' ''book,reserve,table,seat'' [],
                     intentWith ''greeting'' ''hello'' []]
       ''route_to_fallback'' None False"

definition exBookingParameters :: "parameterOption list" where
  "exBookingParameters =
     [\<lparr>parameterOption.key = ''city'', parameterOption.type = ''string'', required = True, defaultValue = ''''\<rparr>,
      \<lparr>parameterOption.key = ''date'', parameterOption.type = ''date'', required = False, defaultValue = ''today''\<rparr>,
      \<lparr>parameterOption.key = ''guests'', parameterOption.type = ''number'', required = True, defaultValue = ''2''\<rparr>]"

definition exBooking :: "context" where
  "exBooking =
     contextWith [] [intentWith ''book'' ''book,reserve'' exBookingParameters] ''error'' None False"

definition exBookingRecord :: "jsvalue nodeExecutionData" where
  "exBookingRecord = recordOf [(''message'', JStr ''I want to reserve a table''), (''guests'', JNum 4)]"

definition exDefault :: "context" where
  "exDefault =
     contextWith [] [intentWith ''greeting'' ''hello,hi'' []] ''route_to_fallback'' None False"

definition exChained :: "context" where
  "exChained =
     contextWith
       [recordOf [(''message'', JStr ''Hello there''), (''user'', JStr ''ann''),
                  (''recognizedIntent'', JStr ''farewell'')]]
       [intentWith ''greeting'' ''hello,hi'' []] ''route_to_fallback'' None False"

definition exChainedEmitted :: "enriched nodeExecutionData" where
  "exChainedEmitted =
     \<lparr>json = [(''message'', Original (JStr ''Hello there'')), (''user'', Original (JStr ''ann'')),
              (''recognizedIntent'', RecognizedIntent (Some ''greeting'')),
              (''extractedParameters'', ExtractedParameters []),
              (''intentMetadata'', IntentMetadata (1 / 2) ''2024-01-01T00:00:00.000Z'' ''hello there'')],
      binary = None, pairedItem = Some 0\<rparr>"

definition exContinue :: "context" where
  "exContinue =
     contextWith [recordOf [(''message'', JStr ''Goodbye''), (''user'', JStr ''ann'')]]
       [intentWith ''greeting'' ''hello,hi'' []] ''error'' None True"

definition exContinueEmitted :: "enriched nodeExecutionData" where
  "exContinueEmitted =
     \<lparr>json = [(''message'', Original (JStr ''Goodbye'')), (''user'', Original (JStr ''ann'')),
              (''error'', ErrorMessage ''No intent recognized for input: goodbye...''),
              (''recognizedIntent'', RecognizedIntent None),
              (''extractedParameters'', ExtractedParameters []),
              (''intentMetadata'', ErrorMetadata 0 ''2024-01-01T00:00:00.000Z'' True)],
      binary = None, pairedItem = Some 0\<rparr>"

definition exGreetingEmitted :: "nat \<Rightarrow> string \<Rightarrow> string option \<Rightarrow> rat \<Rightarrow> enriched nodeExecutionData" where
  "exGreetingEmitted j s intent c =
     \<lparr>json = [(''message'', Original (JStr s)),
              (''recognizedIntent'', RecognizedIntent intent),
              (''extractedParameters'', ExtractedParameters []),
              (''intentMetadata'', IntentMetadata c ''2024-01-01T00:00:00.000Z'' s)],
      binary = None, pairedItem = Some j\<rparr>"

definition exDuplicateKeys :: "context" where
  "exDuplicateKeys =
     contextWith [messageItem ''hello'']
       [intentWith ''greeting'' ''hello'' [], intentWith ''greeting'' ''hi'' []]
       ''route_to_fallback'' None False"

definition exEmptyDiscard :: "context" where
  "exEmptyDiscard = contextWith [messageItem ''hello''] [] ''discard'' None False"

definition exRouting :: "string \<Rightarrow> context" where
  "exRouting fb =
     contextWith [messageItem ''hello'', messageItem ''what?'', messageItem ''book a table'',
                  messageItem ''hi'']
       [intentWith ''greeting'' ''hello,hi'' [], intentWith ''book'' ''book,reserve'' []]
       fb None False"

definition exEmptyFallback :: "context" where
  "exEmptyFallback = contextWith [messageItem ''hello''] [] ''route_to_fallback'' None False"

section \<open>The intent loop\<close>

lemma keywordMatches_Nil [simp]: "keywordMatches cs text [] = []"
  by (simp add: keywordMatches_def)

lemma intentLoop_Cons:
  "intentLoop cs th text js n (x # rest) st =
     (if selectable cs th text x
      then selected js n x (intentConfidence cs text x) st
      else intentLoop cs th text js (Suc n) rest
             (if intentMatches cs text x \<noteq> [] then st\<lparr>confidence := intentConfidence cs text x\<rparr>
              else st))"
  by (simp add: selectable_def intentMatches_def intentConfidence_def intentTokens_def
      selected_def Let_def split: option.splits)

lemma intentLoop_none:
  "\<forall>x\<in>set xs. \<not> selectable cs th text x \<Longrightarrow>
   intentLoop cs th text js n xs st =
     st\<lparr>confidence :=
          (case filter (\<lambda>x. intentMatches cs text x \<noteq> []) xs of
             [] \<Rightarrow> confidence st
           | y # ys \<Rightarrow> intentConfidence cs text (last (y # ys)))\<rparr>"
proof (induction xs arbitrary: n st)
  case Nil
  then show ?case by simp
next
  case (Cons x xs)
  then show ?case
    by (simp add: intentLoop_Cons del: intentLoop.simps split: list.splits)
qed

lemma intentLoop_first:
  "\<forall>x\<in>set pre. \<not> selectable cs th text x \<Longrightarrow> selectable cs th text x \<Longrightarrow>
   intentLoop cs th text js n (pre @ x # post) st =
     selected js (n + length pre) x (intentConfidence cs text x) st"
proof (induction pre arbitrary: n st)
  case Nil
  then show ?case by (simp add: intentLoop_Cons del: intentLoop.simps)
next
  case (Cons p pre)
  then show ?case
    by (simp add: intentLoop_Cons selected_def del: intentLoop.simps split: option.splits)
qed

lemma intentLoop_cases:
  "(\<forall>x\<in>set xs. \<not> selectable cs th text x) \<or>
   (\<exists>pre x post. xs = pre @ x # post \<and> (\<forall>p\<in>set pre. \<not> selectable cs th text p)
      \<and> selectable cs th text x)"
  using split_list_first_prop [of xs "selectable cs th text"] by blast

lemma recognize_index:
  "recognizedIntentIndex (recognize this item) = - 1 \<or>
   (0 \<le> recognizedIntentIndex (recognize this item) \<and>
    recognizedIntentIndex (recognize this item) < int (length (intentOptions this)))"
  using intentLoop_cases [of "intentOptions this" "optCaseSensitive this"
      "optConfidenceThreshold this" "itemText this item"]
  by (auto simp: recognize_def intentLoop_none intentLoop_first selected_def initialRecognition_def)

section \<open>Routing when no error is thrown\<close>

lemma outputIndexOf_bound:
  "outputIndexOf this item = Some c \<Longrightarrow> c < totalOutputs this"
  using recognize_index [of this item]
  by (auto simp: outputIndexOf_def totalOutputs_def split: if_splits)

lemma iteration_no_error:
  assumes "fallbackBehavior this \<noteq> ''error''" and "length rd = totalOutputs this"
  shows "iteration this i item rd =
           Inr (case outputIndexOf this item of
                  None \<Rightarrow> rd
                | Some c \<Rightarrow> rd[c := rd ! c @ [processedItem this i item]])"
proof -
  have b: "recognizedIntentIndex (recognize this item) < int (length (intentOptions this))"
    using recognize_index [of this item] by auto
  show ?thesis
    using assms b
    by (auto simp: iteration_def tryBody_def push_def outputIndexOf_def hasFallback_def
        totalOutputs_def Let_def)
qed

lemma channel_Nil [simp]: "channel this c i [] = []"
  by (simp add: channel_def)

lemma channel_Cons:
  "channel this c i (item # rest) =
     (if outputIndexOf this item = Some c then [processedItem this i item] else [])
       @ channel this c (Suc i) rest"
  by (simp add: channel_def enumerate_simps)

lemma itemLoop_no_error:
  assumes "fallbackBehavior this \<noteq> ''error''"
  shows "length rd = totalOutputs this \<Longrightarrow>
         itemLoop this i items rd =
           Inr (map (\<lambda>c. rd ! c @ channel this c i items) [0..<totalOutputs this])"
proof (induction items arbitrary: i rd)
  case Nil
  then show ?case using map_nth [of rd] by simp
next
  case (Cons item rest)
  let ?rd = "case outputIndexOf this item of
                  None \<Rightarrow> rd
                | Some c \<Rightarrow> rd[c := rd ! c @ [processedItem this i item]]"
  have it: "iteration this i item rd = Inr ?rd"
    using iteration_no_error [OF assms Cons.prems] .
  have len: "length ?rd = totalOutputs this"
    using Cons.prems by (simp split: option.splits)
  have "map (\<lambda>c. ?rd ! c @ channel this c (Suc i) rest) [0..<totalOutputs this]
        = map (\<lambda>c. rd ! c @ channel this c i (item # rest)) [0..<totalOutputs this]"
    using Cons.prems
    by (auto simp: channel_Cons nth_list_update split: option.splits)
  then show ?case
    using Cons.IH [OF len, of "Suc i"] it by simp
qed

lemma execute_no_error:
  assumes "fallbackBehavior this \<noteq> ''error''"
  shows "execute this =
           Inr (if totalOutputs this \<noteq> 0
                then map (\<lambda>c. channel this c 0 (inputData this)) [0..<totalOutputs this]
                else [[]])"
  by (simp add: execute_def itemLoop_no_error [OF assms])

section \<open>What \<open>recognize\<close> returns\<close>

lemma intentMatches_nonempty:
  "intentMatches cs text x \<noteq> [] \<longleftrightarrow>
     (\<exists>s kw. intentKeywords x = Some s \<and> s \<noteq> [] \<and> kw \<in> set (keywordsOf s) \<and>
        str_includes text (if cs then kw else toLowerCase kw))"
proof (cases "intentKeywords x")
  case None
  then show ?thesis by (simp add: intentMatches_def intentTokens_def)
next
  case (Some s)
  then show ?thesis
    by (cases "s = []")
      (auto simp: intentMatches_def intentTokens_def keywordMatches_def filter_empty_conv)
qed

lemma recognize_cases:
  "((\<forall>x\<in>set (intentOptions this).
        \<not> selectable (optCaseSensitive this) (optConfidenceThreshold this) (itemText this item) x) \<and>
    recognize this item =
      initialRecognition\<lparr>confidence :=
        (case filter (\<lambda>x. intentMatches (optCaseSensitive this) (itemText this item) x \<noteq> [])
                (intentOptions this) of
           [] \<Rightarrow> 0
         | y # ys \<Rightarrow> intentConfidence (optCaseSensitive this) (itemText this item) (last (y # ys)))\<rparr>)
   \<or>
   (\<exists>pre x post. intentOptions this = pre @ x # post \<and>
      (\<forall>p\<in>set pre.
         \<not> selectable (optCaseSensitive this) (optConfidenceThreshold this) (itemText this item) p) \<and>
      selectable (optCaseSensitive this) (optConfidenceThreshold this) (itemText this item) x \<and>
      recognize this item =
        selected (json item) (length pre) x
          (intentConfidence (optCaseSensitive this) (itemText this item) x) initialRecognition)"
proof -
  let ?cs = "optCaseSensitive this" and ?th = "optConfidenceThreshold this"
  let ?text = "itemText this item"
  consider (none) "\<forall>x\<in>set (intentOptions this). \<not> selectable ?cs ?th ?text x"
    | (first) pre x post where "intentOptions this = pre @ x # post"
        "\<forall>p\<in>set pre. \<not> selectable ?cs ?th ?text p" "selectable ?cs ?th ?text x"
    using intentLoop_cases [of "intentOptions this" ?cs ?th ?text] by blast
  then show ?thesis
  proof cases
    case none
    then show ?thesis
      by (simp add: recognize_def intentLoop_none initialRecognition_def split: list.splits)
  next
    case first
    have "recognize this item =
        selected (json item) (length pre) x (intentConfidence ?cs ?text x) initialRecognition"
      using intentLoop_first [OF first(2,3), of "json item" 0 post initialRecognition]
      by (simp add: recognize_def first(1))
    with first show ?thesis by blast
  qed
qed

lemma recognize_selected:
  assumes "recognizedIntentIndex (recognize this item) = int i"
  shows "i < length (intentOptions this) \<and>
         selectable (optCaseSensitive this) (optConfidenceThreshold this) (itemText this item)
           (intentOptions this ! i) \<and>
         (\<forall>j<i. \<not> selectable (optCaseSensitive this) (optConfidenceThreshold this)
                    (itemText this item) (intentOptions this ! j)) \<and>
         recognize this item =
           selected (json item) i (intentOptions this ! i)
             (intentConfidence (optCaseSensitive this) (itemText this item) (intentOptions this ! i))
             initialRecognition"
proof -
  let ?cs = "optCaseSensitive this" and ?th = "optConfidenceThreshold this"
  let ?text = "itemText this item"
  from recognize_cases [of this item] assms
  obtain pre x post where d: "intentOptions this = pre @ x # post"
    and n: "\<forall>p\<in>set pre. \<not> selectable ?cs ?th ?text p"
    and s: "selectable ?cs ?th ?text x"
    and r: "recognize this item =
              selected (json item) (length pre) x (intentConfidence ?cs ?text x) initialRecognition"
    by (auto simp: initialRecognition_def)
  from r assms have i: "i = length pre" by (simp add: selected_def)
  have x: "intentOptions this ! i = x" by (simp add: d i)
  have "\<forall>j<i. \<not> selectable ?cs ?th ?text (intentOptions this ! j)"
    using n by (simp add: d i nth_append)
  with s r show ?thesis by (simp add: x) (simp add: d i)
qed

section \<open>A keyword must be found (claim C10)\<close>

text \<open>
  C10. For every record and configuration, whatever the threshold (0 included), an intent
  none of whose keyword tokens occurs in the normalised text is never the recognised
  intent: the loop requires \<open>keywordMatches.length > 0\<close> before it compares the
  confidence with the threshold. An intent without keyword string has no token, so it is
  never recognised either.
\<close>

theorem unmatched_intent_never_selected:
  assumes "i < length (intentOptions this)"
    and "\<forall>s. intentKeywords (intentOptions this ! i) = Some s \<longrightarrow>
           (\<forall>kw\<in>set (keywordsOf s).
              \<not> str_includes (itemText this item)
                  (if optCaseSensitive this then kw else toLowerCase kw))"
  shows "recognizedIntentIndex (recognize this item) \<noteq> int i"
proof
  assume "recognizedIntentIndex (recognize this item) = int i"
  then have "selectable (optCaseSensitive this) (optConfidenceThreshold this) (itemText this item)
           (intentOptions this ! i)"
    using recognize_selected by blast
  then have "intentMatches (optCaseSensitive this) (itemText this item) (intentOptions this ! i) \<noteq> []"
    by (simp add: selectable_def)
  then obtain s kw where "intentKeywords (intentOptions this ! i) = Some s"
    "kw \<in> set (keywordsOf s)"
    "str_includes (itemText this item) (if optCaseSensitive this then kw else toLowerCase kw)"
    unfolding intentMatches_nonempty by blast
  with assms(2) show False by blast
qed

text \<open>
  The instance: threshold 0, the text "Hello there", and the first intent with keywords
  "refund,invoice".
\<close>

theorem unmatched_intent_never_selected_witness:
  "(0::nat) < length (intentOptions exThresholdZero) \<and>
   optConfidenceThreshold exThresholdZero = 0 \<and>
   intentKeywords (intentOptions exThresholdZero ! 0) = Some ''refund,invoice'' \<and>
   filter (\<lambda>kw. str_includes (itemText exThresholdZero (messageItem ''Hello there''))
                  (if optCaseSensitive exThresholdZero then kw else toLowerCase kw))
     (keywordsOf ''refund,invoice'') = [] \<and>
   recognizedIntentIndex (recognize exThresholdZero (messageItem ''Hello there'')) \<noteq> int 0"
proof -
  have h1: "(0::nat) < length (intentOptions exThresholdZero)"
    by code_simp
  have k: "intentKeywords (intentOptions exThresholdZero ! 0) = Some ''refund,invoice''"
    by code_simp
  have m0: "filter (\<lambda>kw. str_includes (itemText exThresholdZero (messageItem ''Hello there''))
                  (if optCaseSensitive exThresholdZero then kw else toLowerCase kw))
     (keywordsOf ''refund,invoice'') = []"
    by code_simp
  then have m: "\<forall>kw\<in>set (keywordsOf ''refund,invoice'').
              \<not> str_includes (itemText exThresholdZero (messageItem ''Hello there''))
                  (if optCaseSensitive exThresholdZero then kw else toLowerCase kw)"
    by (simp add: filter_empty_conv)
  have h2: "\<forall>s. intentKeywords (intentOptions exThresholdZero ! 0) = Some s \<longrightarrow>
           (\<forall>kw\<in>set (keywordsOf s).
              \<not> str_includes (itemText exThresholdZero (messageItem ''Hello there''))
                  (if optCaseSensitive exThresholdZero then kw else toLowerCase kw))"
    using k m by simp
  have t: "optConfidenceThreshold exThresholdZero = 0"
    by code_simp
  show ?thesis
    using unmatched_intent_never_selected [OF h1 h2] h1 k m0 t by blast
qed

section \<open>First match wins (claim C2)\<close>

lemma recognize_intentOptions_update:
  "recognize (this\<lparr>intentOptions := xs\<rparr>) item =
     intentLoop (optCaseSensitive this) (optConfidenceThreshold this) (itemText this item)
       (json item) 0 xs initialRecognition"
  by (simp add: recognize_def optCaseSensitive_def optConfidenceThreshold_def itemText_def
      optInputField_def)

text \<open>
  C2, as the code has it. The recognised intent is the earliest-declared selectable one:
  the first intent with at least one keyword token found and with confidence at or above
  the threshold. Its index, key and confidence are reported whatever the intents declared
  after it are (a later intent with a higher confidence changes nothing), and the result
  is the one obtained when the list is cut after it: later intents are not evaluated.
\<close>

theorem first_selectable_intent_wins:
  assumes "i < length (intentOptions this)"
    and "selectable (optCaseSensitive this) (optConfidenceThreshold this) (itemText this item)
           (intentOptions this ! i)"
    and "\<forall>j<i. \<not> selectable (optCaseSensitive this) (optConfidenceThreshold this)
                   (itemText this item) (intentOptions this ! j)"
  shows "recognizedIntentIndex (recognize this item) = int i \<and>
         recognizedIntentKey (recognize this item) = Some (intentOption.key (intentOptions this ! i)) \<and>
         confidence (recognize this item) =
           intentConfidence (optCaseSensitive this) (itemText this item) (intentOptions this ! i) \<and>
         recognize (this\<lparr>intentOptions := take (Suc i) (intentOptions this)\<rparr>) item
           = recognize this item"
proof -
  let ?cs = "optCaseSensitive this" and ?th = "optConfidenceThreshold this"
  let ?text = "itemText this item" and ?xs = "intentOptions this"
  let ?pre = "take i ?xs" and ?x = "?xs ! i" and ?post = "drop (Suc i) ?xs"
  have d: "?xs = ?pre @ ?x # ?post"
    using assms(1) by (simp add: id_take_nth_drop)
  have t: "take (Suc i) ?xs = ?pre @ ?x # []"
    using assms(1) by (simp add: take_Suc_conv_app_nth)
  have n: "\<forall>p\<in>set ?pre. \<not> selectable ?cs ?th ?text p"
    using assms(1,3) by (auto simp: in_set_conv_nth)
  have l: "length ?pre = i" using assms(1) by simp
  have r: "recognize this item = selected (json item) i ?x (intentConfidence ?cs ?text ?x) initialRecognition"
    using intentLoop_first [OF n assms(2), of "json item" 0 ?post initialRecognition] d l
    by (simp add: recognize_def)
  have r': "recognize (this\<lparr>intentOptions := take (Suc i) ?xs\<rparr>) item
              = selected (json item) i ?x (intentConfidence ?cs ?text ?x) initialRecognition"
    using intentLoop_first [OF n assms(2), of "json item" 0 "[]" initialRecognition] l
    by (simp only: recognize_intentOptions_update t) simp
  show ?thesis
    by (simp add: r r') (simp add: selected_def)
qed

text \<open>
  The instance: threshold 0.3 and the text "Hello"; the first intent finds 1 of its 3
  keywords, the second 1 of 1. The first is recognised, with confidence 1/3.
\<close>

theorem first_selectable_intent_wins_witness:
  "(0::nat) < length (intentOptions exLaterHigher) \<and>
   selectable False (3 / 10) ''hello'' (intentOptions exLaterHigher ! 0) \<and>
   selectable False (3 / 10) ''hello'' (intentOptions exLaterHigher ! 1) \<and>
   intentConfidence False ''hello'' (intentOptions exLaterHigher ! 0) = 1 / 3 \<and>
   intentConfidence False ''hello'' (intentOptions exLaterHigher ! 1) = 1 \<and>
   recognizedIntentIndex (recognize exLaterHigher (messageItem ''Hello'')) = 0 \<and>
   recognizedIntentKey (recognize exLaterHigher (messageItem ''Hello'')) = Some ''smalltalk'' \<and>
   confidence (recognize exLaterHigher (messageItem ''Hello'')) = 1 / 3"
proof -
  have cs: "optCaseSensitive exLaterHigher = False" by code_simp
  have th: "optConfidenceThreshold exLaterHigher = 3 / 10" by code_simp
  have tx: "itemText exLaterHigher (messageItem ''Hello'') = ''hello''" by code_simp
  have h1: "(0::nat) < length (intentOptions exLaterHigher)" by code_simp
  have h2: "selectable False (3 / 10) ''hello'' (intentOptions exLaterHigher ! 0)" by code_simp
  have h2': "selectable False (3 / 10) ''hello'' (intentOptions exLaterHigher ! 1)" by code_simp
  have c0: "intentConfidence False ''hello'' (intentOptions exLaterHigher ! 0) = 1 / 3" by code_simp
  have c1: "intentConfidence False ''hello'' (intentOptions exLaterHigher ! 1) = 1" by code_simp
  have k: "intentOption.key (intentOptions exLaterHigher ! 0) = ''smalltalk''" by code_simp
  show ?thesis
    using first_selectable_intent_wins [of 0 exLaterHigher "messageItem ''Hello''"] h1 h2 h2' c0 c1 k
    by (simp add: cs th tx)
qed

text \<open>
  C2 as stated fails at threshold 0. Both intents reach a confidence at or above the
  threshold (0 and 1), and the one recognised is the second: the first has no keyword in
  the text.
\<close>

theorem earliest_reaching_threshold_not_selected:
  "optConfidenceThreshold exThresholdZero = 0 \<and>
   spec_confidence False (itemText exThresholdZero (messageItem ''Hello there''))
     (intentKeywords (intentOptions exThresholdZero ! 0)) = 0 \<and>
   spec_confidence False (itemText exThresholdZero (messageItem ''Hello there''))
     (intentKeywords (intentOptions exThresholdZero ! 1)) = 1 \<and>
   recognizedIntentIndex (recognize exThresholdZero (messageItem ''Hello there'')) = 1"
  by code_simp

section \<open>The confidence of an intent (claim C3)\<close>

lemma length_split_comma:
  "length (split_comma s) = Suc (length (filter (\<lambda>c. c = CHR '','') s))"
  by (induction s) (auto split: list.splits)

lemma length_keywordsOf:
  "length (keywordsOf s) = Suc (length (filter (\<lambda>c. c = CHR '','') s))"
  by (simp add: keywordsOf_def length_split_comma)

lemma intentConfidence_Some:
  "intentKeywords x = Some s \<Longrightarrow> s \<noteq> [] \<Longrightarrow>
   intentConfidence cs text x =
     of_nat (length (keywordMatches cs text (keywordsOf s))) / of_nat (length (keywordsOf s))"
  by (simp add: intentConfidence_def intentMatches_def intentTokens_def)




section \<open>The confidence reported when nothing is recognised (claim C9)\<close>

text \<open>
  C9, as the code has it. When no intent is selectable, no intent key is reported, and the
  reported confidence is the confidence of the last intent that has at least one keyword
  token found in the text, or 0 when no intent has one: \<open>confidence\<close> is assigned only
  under \<open>keywordMatches.length > 0\<close>.
\<close>

theorem fallthrough_confidence:
  assumes "\<forall>x\<in>set (intentOptions this).
             \<not> selectable (optCaseSensitive this) (optConfidenceThreshold this) (itemText this item) x"
  shows "recognizedIntentKey (recognize this item) = None \<and>
         recognizedIntentIndex (recognize this item) = - 1 \<and>
         confidence (recognize this item) =
           (case filter (\<lambda>x. intentMatches (optCaseSensitive this) (itemText this item) x \<noteq> [])
                   (intentOptions this) of
              [] \<Rightarrow> 0
            | y # ys \<Rightarrow> intentConfidence (optCaseSensitive this) (itemText this item) (last (y # ys)))"
proof -
  from recognize_cases [of this item] assms
  have "recognize this item =
      initialRecognition\<lparr>confidence :=
        (case filter (\<lambda>x. intentMatches (optCaseSensitive this) (itemText this item) x \<noteq> [])
                (intentOptions this) of
           [] \<Rightarrow> 0
         | y # ys \<Rightarrow> intentConfidence (optCaseSensitive this) (itemText this item) (last (y # ys)))\<rparr>"
    by auto
  then show ?thesis by (simp add: initialRecognition_def)
qed

text \<open>
  C9 as stated fails when the last intent has no keyword in the text. For "I want to book"
  the last intent evaluated has confidence 0, and the confidence reported is the 1/4 of
  the intent before it.
\<close>

theorem fallthrough_confidence_not_last_intent:
  "recognizedIntentKey (recognize exFallthrough (messageItem ''I want to book'')) = None \<and>
   spec_confidence False (itemText exFallthrough (messageItem ''I want to book''))
     (intentKeywords (last (intentOptions exFallthrough))) = 0 \<and>
   confidence (recognize exFallthrough (messageItem ''I want to book'')) = 1 / 4"
  by code_simp

text \<open>The instance: the same configuration and text, at the default threshold 0.5.\<close>

theorem fallthrough_confidence_witness:
  "filter (selectable False (1 / 2) ''i want to book'') (intentOptions exFallthrough) = [] \<and>
   filter (\<lambda>x. intentMatches False ''i want to book'' x \<noteq> []) (intentOptions exFallthrough)
     = [intentWith ''booking'' ''book,reserve,table,seat'' []] \<and>
   recognizedIntentKey (recognize exFallthrough (messageItem ''I want to book'')) = None \<and>
   confidence (recognize exFallthrough (messageItem ''I want to book'')) = 1 / 4"
proof -
  have cs: "optCaseSensitive exFallthrough = False" by code_simp
  have th: "optConfidenceThreshold exFallthrough = 1 / 2" by code_simp
  have tx: "itemText exFallthrough (messageItem ''I want to book'') = ''i want to book''" by code_simp
  have h0: "filter (selectable False (1 / 2) ''i want to book'') (intentOptions exFallthrough) = []"
    by code_simp
  then have h: "\<forall>x\<in>set (intentOptions exFallthrough). \<not> selectable False (1 / 2) ''i want to book'' x"
    by (simp add: filter_empty_conv)
  have f: "filter (\<lambda>x. intentMatches False ''i want to book'' x \<noteq> []) (intentOptions exFallthrough)
     = [intentWith ''booking'' ''book,reserve,table,seat'' []]" by code_simp
  have c: "intentConfidence False ''i want to book'' (intentWith ''booking'' ''book,reserve,table,seat'' []) = 1 / 4"
    by code_simp
  show ?thesis
    using fallthrough_confidence [of exFallthrough "messageItem ''I want to book''"] h h0 f c
    by (simp add: cs th tx)
qed

section \<open>Parameter extraction (claim C7)\<close>

text \<open>
  The value the extraction loop leaves under a name, for any parameter list: the record's
  field when some spec has that name and the record has the field; else the default of
  the last spec of that name with a non-empty default; else what was there before.
\<close>

lemma map_of_extractParameters:
  "map_of (extractParameters js ps acc) k =
     (if k \<in> parameterOption.key ` set ps \<and> k \<in> fst ` set js then map_of js k
      else (case filter (\<lambda>p. parameterOption.key p = k \<and> defaultValue p \<noteq> []) ps of
              [] \<Rightarrow> map_of acc k
            | d # ds \<Rightarrow> Some (JStr (defaultValue (last (d # ds))))))"
proof (induction ps arbitrary: acc)
  case Nil
  then show ?case by simp
next
  case (Cons p ps)
  have e: "\<And>x. x \<in> fst ` set js \<Longrightarrow> Some (the (map_of js x)) = map_of js x"
    by (metis domIff dom_map_of_conv_image_fst option.collapse)
  show ?case
    by (auto simp: Cons.IH update_conv' e filter_empty_conv image_iff split: list.splits)
qed

lemma iteration_recognized:
  assumes "recognizedIntentIndex (recognize this item) \<ge> 0" and "length rd = totalOutputs this"
  shows "iteration this n item rd =
           Inr (rd[nat (recognizedIntentIndex (recognize this item)) :=
                     rd ! nat (recognizedIntentIndex (recognize this item))
                       @ [processedItem this n item]])"
proof -
  have "recognizedIntentIndex (recognize this item) < int (length (intentOptions this))"
    using recognize_index [of this item] by auto
  then show ?thesis
    using assms by (auto simp: iteration_def tryBody_def push_def totalOutputs_def Let_def)
qed



section \<open>The text that is analysed (claim C8)\<close>

lemma tryBody_error:
  assumes "length rd = totalOutputs this" and "tryBody this n item rd = Inl e"
  shows "fallbackBehavior this = ''error'' \<and> recognizedIntentIndex (recognize this item) < 0 \<and>
         e = NodeOperationError
               (''No intent recognized for input: '' @ take 100 (itemText this item) @ ''...'') n"
proof -
  have "recognizedIntentIndex (recognize this item) < int (length (intentOptions this))"
    using recognize_index [of this item] by auto
  then show ?thesis
    using assms
    by (auto simp: tryBody_def push_def totalOutputs_def hasFallback_def Let_def
        split: if_splits)
qed




section \<open>The fields of an emitted record (claim C6)\<close>

lemma map_of_Original:
  "map_of (map (\<lambda>(k, v). (k, Original v)) js) k = map_option Original (map_of js k)"
  by (induction js) auto

lemma map_of_processedItem:
  "map_of (json (processedItem this n item)) k =
     (if k = ''intentMetadata''
      then Some (IntentMetadata (confidence (recognize this item)) (now this n)
                   (take 200 (itemText this item)))
      else if k = ''extractedParameters''
      then Some (ExtractedParameters (extractedParameters (recognize this item)))
      else if k = ''recognizedIntent''
      then Some (RecognizedIntent (recognizedIntentKey (recognize this item)))
      else map_option Original (map_of (json item) k))"
  by (simp add: processedItem_def Let_def update_conv' map_of_Original)

lemma map_of_errorItem:
  "map_of (json (errorItem this n item err)) k =
     (if k = ''intentMetadata'' then Some (ErrorMetadata 0 (now this n) True)
      else if k = ''extractedParameters'' then Some (ExtractedParameters [])
      else if k = ''recognizedIntent'' then Some (RecognizedIntent None)
      else if k = ''error'' then Some (ErrorMessage (message err))
      else map_option Original (map_of (json item) k))"
  by (simp add: errorItem_def update_conv' map_of_Original)

lemma push_mem:
  assumes "push rd c x = Inr rd'" and "y \<in> set (concat rd')"
  shows "y = x \<or> y \<in> set (concat rd)"
proof -
  from assms(1) have c: "c < length rd" and r: "rd' = rd[c := rd ! c @ [x]]"
    by (auto simp: push_def split: if_splits)
  from assms(2) obtain ys where "ys \<in> set rd'" "y \<in> set ys" by auto
  then have "ys = rd ! c @ [x] \<or> ys \<in> set rd"
    using set_update_subset_insert [of rd c "rd ! c @ [x]"] by (auto simp: r)
  then show ?thesis
    using \<open>y \<in> set ys\<close> c by (auto dest: nth_mem)
qed

lemma iteration_mem:
  assumes "iteration this n item rd = Inr rd'" and "y \<in> set (concat rd')"
  shows "y \<in> set (concat rd) \<or> y = processedItem this n item \<or>
         (continueOnFail this \<and> (\<exists>err. y = errorItem this n item err))"
proof (cases "tryBody this n item rd")
  case (Inr r)
  then have "rd' = r" using assms(1) by (simp add: iteration_def)
  then show ?thesis
    using Inr assms(2) push_mem [of rd _ "processedItem this n item" rd' y]
    by (auto simp: tryBody_def Let_def split: if_splits)
next
  case (Inl err)
  then have "catchBlock this n item rd err = Inr rd'"
    using assms(1) by (simp add: iteration_def)
  then show ?thesis
    using assms(2) push_mem [of rd _ "errorItem this n item err" rd' y]
    by (auto simp: catchBlock_def split: if_splits error.splits)
qed

lemma itemLoop_mem:
  "itemLoop this n items rd = Inr out \<Longrightarrow> y \<in> set (concat out) \<Longrightarrow>
   y \<in> set (concat rd) \<or>
   (\<exists>j<length items. y = processedItem this (n + j) (items ! j) \<or>
      (continueOnFail this \<and> (\<exists>err. y = errorItem this (n + j) (items ! j) err)))"
proof (induction items arbitrary: n rd)
  case Nil
  then show ?case by simp
next
  case (Cons item rest)
  from Cons.prems(1) obtain rd' where it: "iteration this n item rd = Inr rd'"
    and lp: "itemLoop this (Suc n) rest rd' = Inr out"
    by (auto split: sum.splits)
  from Cons.IH [OF lp Cons.prems(2)]
  consider (old) "y \<in> set (concat rd')"
    | (new) j where "j < length rest"
        "y = processedItem this (Suc n + j) (rest ! j) \<or>
         (continueOnFail this \<and> (\<exists>err. y = errorItem this (Suc n + j) (rest ! j) err))"
    by blast
  then show ?case
  proof cases
    case old
    from iteration_mem [OF it old] show ?thesis by fastforce
  next
    case new
    then have "Suc j < length (item # rest) \<and>
       (y = processedItem this (n + Suc j) ((item # rest) ! Suc j) \<or>
         (continueOnFail this \<and> (\<exists>err. y = errorItem this (n + Suc j) ((item # rest) ! Suc j) err)))"
      by simp
    then show ?thesis by blast
  qed
qed

lemma execute_mem:
  assumes "execute this = Inr out" and "y \<in> set (concat out)"
  shows "\<exists>j<length (inputData this). y = processedItem this j (inputData this ! j) \<or>
      (continueOnFail this \<and> (\<exists>err. y = errorItem this j (inputData this ! j) err))"
proof -
  from assms(1) obtain rd where
    lp: "itemLoop this 0 (inputData this) (replicate (totalOutputs this) []) = Inr rd"
    and o: "out = (if length rd \<noteq> 0 then rd else [[]])"
    by (auto simp: execute_def split: sum.splits)
  from o assms(2) have "y \<in> set (concat rd)" by (auto split: if_splits)
  from itemLoop_mem [OF lp this] show ?thesis by auto
qed




section \<open>The channels (claims C1, C4 and C5)\<close>

lemma outputIndexOf_fallback:
  assumes "hasFallback this"
  shows "outputIndexOf this item = Some c \<longleftrightarrow>
           (if c < length (intentOptions this)
            then recognizedIntentIndex (recognize this item) = int c
            else c = length (intentOptions this) \<and> recognizedIntentIndex (recognize this item) < 0)"
  using recognize_index [of this item] assms
  by (auto simp: outputIndexOf_def)

lemma outputIndexOf_no_fallback:
  assumes "\<not> hasFallback this"
  shows "outputIndexOf this item = Some c \<longleftrightarrow> recognizedIntentIndex (recognize this item) = int c"
    and "outputIndexOf this item \<noteq> None \<longleftrightarrow> recognizedIntentIndex (recognize this item) \<ge> 0"
  using recognize_index [of this item] assms
  by (auto simp: outputIndexOf_def)

lemma recognize_key:
  assumes "recognizedIntentIndex (recognize this item) = int c"
  shows "c < length (intentOptions this) \<and>
         recognizedIntentKey (recognize this item) = Some (intentOption.key (intentOptions this ! c))"
proof -
  from recognize_selected [OF assms]
  have "c < length (intentOptions this)"
    and "recognize this item =
           selected (json item) c (intentOptions this ! c)
             (intentConfidence (optCaseSensitive this) (itemText this item) (intentOptions this ! c))
             initialRecognition"
    by blast+
  then show ?thesis by (simp add: selected_def)
qed

lemma enumerate_Nil_iff: "enumerate n xs = [] \<longleftrightarrow> xs = []"
  by (cases xs) (simp_all add: enumerate_simps)

lemma length_configuredOutputs:
  "length (configuredOutputs intents fb)
     = max 1 (length intents + (if fb = ''route_to_fallback'' then 1 else 0))"
  by (auto simp: configuredOutputs_def Let_def max_def Suc_le_eq enumerate_Nil_iff)

lemma configuredOutputs_fallback:
  "configuredOutputs intents ''route_to_fallback'' ! length intents
     = \<lparr>nodeOutput.type = ''main'', displayName = ''Fallback''\<rparr>"
  by (simp add: configuredOutputs_def Let_def nth_append)



lemma sum_list_indicator:
  "(\<Sum>c\<leftarrow>[0..<K]. if c = c0 then 1 else 0) = (if c0 < K then 1 else (0::nat))"
  by (induction K) auto

lemma count_by_channel:
  "\<forall>x\<in>set xs. \<forall>c. f x = Some c \<longrightarrow> c < K \<Longrightarrow>
   (\<Sum>c\<leftarrow>[0..<K]. length (filter (\<lambda>x. f x = Some c) xs))
     = length (filter (\<lambda>x. f x \<noteq> None) xs)"
proof (induction xs)
  case Nil
  then show ?case by simp
next
  case (Cons x xs)
  have "(\<Sum>c\<leftarrow>[0..<K]. length (filter (\<lambda>x. f x = Some c) (x # xs)))
      = (\<Sum>c\<leftarrow>[0..<K]. (if f x = Some c then 1 else 0) + length (filter (\<lambda>x. f x = Some c) xs))"
    by (intro arg_cong [where f = sum_list] map_cong) auto
  also have "\<dots> = (\<Sum>c\<leftarrow>[0..<K]. if f x = Some c then 1 else 0)
                   + (\<Sum>c\<leftarrow>[0..<K]. length (filter (\<lambda>x. f x = Some c) xs))"
    by (simp add: sum_list_addf)
  also have "(\<Sum>c\<leftarrow>[0..<K]. if f x = Some c then 1 else 0) = (if f x \<noteq> None then 1 else (0::nat))"
  proof (cases "f x")
    case None
    then show ?thesis by simp
  next
    case (Some c0)
    then have "c0 < K" using Cons.prems by simp
    then show ?thesis using sum_list_indicator [of c0 K] Some
      by (simp add: eq_commute [of c0])
  qed
  finally show ?case using Cons by simp
qed

lemma filter_enumerate_snd:
  "map snd (filter (\<lambda>(j, x). P x) (enumerate n xs)) = filter P xs"
  by (induction xs arbitrary: n) (auto simp: enumerate_simps)

lemma length_filter_enumerate:
  "length (filter (\<lambda>(j, x). P x) (enumerate n xs)) = length (filter P xs)"
  using arg_cong [OF filter_enumerate_snd [of P n xs], of length] by simp






end
